theory Spec2Isabelle
  imports Complex_Main
begin

section \<open>JavaScript numbers\<close>

text \<open>
  Every index of \<^verbatim>\<open>useKbdList\<close> (\<^verbatim>\<open>listLength\<close>, \<^verbatim>\<open>activeIndex\<close>, \<^verbatim>\<open>hoverIndex\<close>, the value
  read from the index attribute) has the TypeScript type \<^verbatim>\<open>number\<close>. A number is \<open>NaN\<close>,
  an infinity or a finite value; a finite value is modelled by the rational it denotes.
  The operations below are exact on integers of magnitude below \<open>2^53\<close>, which covers every
  index of a list; the rounding of other results to 53 bits (and their overflow to an
  infinity) is not modelled, and \<open>-0\<close> is identified with \<open>0\<close>.
\<close>

datatype number = NaN | Fin rat | PosInf | NegInf

definition num :: "int \<Rightarrow> number" where
  "num i = Fin (of_int i)"

text \<open>Unary minus, \<^verbatim>\<open>+\<close> and \<^verbatim>\<open>-\<close>.\<close>

fun js_neg :: "number \<Rightarrow> number" where
  "js_neg NaN = NaN"
| "js_neg (Fin a) = Fin (- a)"
| "js_neg PosInf = NegInf"
| "js_neg NegInf = PosInf"

fun js_add :: "number \<Rightarrow> number \<Rightarrow> number" where
  "js_add (Fin a) (Fin b) = Fin (a + b)"
| "js_add (Fin a) PosInf = PosInf"
| "js_add (Fin a) NegInf = NegInf"
| "js_add PosInf (Fin b) = PosInf"
| "js_add NegInf (Fin b) = NegInf"
| "js_add PosInf PosInf = PosInf"
| "js_add NegInf NegInf = NegInf"
| "js_add _ _ = NaN"

definition js_sub :: "number \<Rightarrow> number \<Rightarrow> number" where
  "js_sub a b = js_add a (js_neg b)"

text \<open>
  The remainder \<^verbatim>\<open>%\<close> truncates the quotient towards zero, so its result has the sign of
  the dividend: \<^verbatim>\<open>-2 % 5\<close> is \<^verbatim>\<open>-2\<close>, where \<open>mod\<close> of HOL gives \<open>3\<close>.
\<close>

definition trunc :: "rat \<Rightarrow> int" where
  "trunc q = (if 0 \<le> q then \<lfloor>q\<rfloor> else \<lceil>q\<rceil>)"

fun js_rem :: "number \<Rightarrow> number \<Rightarrow> number" where
  "js_rem (Fin a) (Fin b) = (if b = 0 then NaN else Fin (a - b * of_int (trunc (a / b))))"
| "js_rem (Fin a) PosInf = Fin a"
| "js_rem (Fin a) NegInf = Fin a"
| "js_rem _ _ = NaN"

text \<open>The comparisons \<^verbatim>\<open><\<close>, \<^verbatim>\<open>>=\<close> and \<^verbatim>\<open>===\<close>: each is false when an operand is \<open>NaN\<close>.\<close>

fun js_lt :: "number \<Rightarrow> number \<Rightarrow> bool" where
  "js_lt (Fin a) (Fin b) = (a < b)"
| "js_lt (Fin a) PosInf = True"
| "js_lt NegInf (Fin b) = True"
| "js_lt NegInf PosInf = True"
| "js_lt _ _ = False"

definition js_ge :: "number \<Rightarrow> number \<Rightarrow> bool" where
  "js_ge a b = (a \<noteq> NaN \<and> b \<noteq> NaN \<and> \<not> js_lt a b)"

definition strict_eq :: "number \<Rightarrow> number \<Rightarrow> bool" where
  "strict_eq a b = (a \<noteq> NaN \<and> b \<noteq> NaN \<and> a = b)"

definition isNaN :: "number \<Rightarrow> bool" where
  "isNaN a = (a = NaN)"

section \<open>\<^verbatim>\<open>Number(...)\<close> of an attribute value\<close>

text \<open>
  \<^verbatim>\<open>Number(element.getAttribute(name))\<close> converts a string (or \<^verbatim>\<open>null\<close>) to a number:
  white space is trimmed, the empty string is \<open>0\<close>, a signed decimal literal (with an
  optional fraction and exponent), \<^verbatim>\<open>Infinity\<close>, and an unsigned hexadecimal, octal or binary
  literal have their value, and everything else is \<open>NaN\<close>. Attribute values are ASCII
  strings here.
\<close>

definition decimal_digit :: "char \<Rightarrow> nat option" where
  "decimal_digit = map_of
     [(CHR ''0'', 0), (CHR ''1'', 1), (CHR ''2'', 2), (CHR ''3'', 3), (CHR ''4'', 4),
      (CHR ''5'', 5), (CHR ''6'', 6), (CHR ''7'', 7), (CHR ''8'', 8), (CHR ''9'', 9)]"

definition hex_digit :: "char \<Rightarrow> nat option" where
  "hex_digit = map_of
     [(CHR ''0'', 0), (CHR ''1'', 1), (CHR ''2'', 2), (CHR ''3'', 3), (CHR ''4'', 4),
      (CHR ''5'', 5), (CHR ''6'', 6), (CHR ''7'', 7), (CHR ''8'', 8), (CHR ''9'', 9),
      (CHR ''a'', 10), (CHR ''b'', 11), (CHR ''c'', 12), (CHR ''d'', 13), (CHR ''e'', 14),
      (CHR ''f'', 15), (CHR ''A'', 10), (CHR ''B'', 11), (CHR ''C'', 12), (CHR ''D'', 13),
      (CHR ''E'', 14), (CHR ''F'', 15)]"

definition octal_digit :: "char \<Rightarrow> nat option" where
  "octal_digit = map_of
     [(CHR ''0'', 0), (CHR ''1'', 1), (CHR ''2'', 2), (CHR ''3'', 3), (CHR ''4'', 4),
      (CHR ''5'', 5), (CHR ''6'', 6), (CHR ''7'', 7)]"

definition binary_digit :: "char \<Rightarrow> nat option" where
  "binary_digit = map_of [(CHR ''0'', 0), (CHR ''1'', 1)]"

definition digits_value :: "nat \<Rightarrow> nat list \<Rightarrow> nat" where
  "digits_value b ds = foldl (\<lambda>acc d. acc * b + d) 0 ds"

text \<open>A non-empty run of digits of base \<open>b\<close>, and nothing else.\<close>

definition parse_digits :: "(char \<Rightarrow> nat option) \<Rightarrow> nat \<Rightarrow> string \<Rightarrow> nat option" where
  "parse_digits digit b s =
     (if s = [] \<or> list_ex (\<lambda>c. digit c = None) s then None
      else Some (digits_value b (map (\<lambda>c. the (digit c)) s)))"

definition is_digit :: "char \<Rightarrow> bool" where
  "is_digit c = (decimal_digit c \<noteq> None)"

definition pow10 :: "int \<Rightarrow> rat" where
  "pow10 e = (if 0 \<le> e then 10 ^ nat e else 1 / 10 ^ nat (- e))"

text \<open>The exponent part: nothing, or \<^verbatim>\<open>e\<close> or \<^verbatim>\<open>E\<close>, an optional sign and digits.\<close>

definition ExponentPart :: "string \<Rightarrow> int option" where
  "ExponentPart s =
     (if s = [] then Some 0
      else if hd s = CHR ''e'' \<or> hd s = CHR ''E'' then
        (let t = tl s in
         if t \<noteq> [] \<and> hd t = CHR ''+'' then map_option int (parse_digits decimal_digit 10 (tl t))
         else if t \<noteq> [] \<and> hd t = CHR ''-'' then
           map_option (\<lambda>n. - int n) (parse_digits decimal_digit 10 (tl t))
         else map_option int (parse_digits decimal_digit 10 t))
      else None)"

text \<open>
  \<^verbatim>\<open>Infinity\<close>, or digits with an optional fraction, at least one digit on one side of the
  point, and an optional exponent.
\<close>

definition StrUnsignedDecimalLiteral :: "string \<Rightarrow> number" where
  "StrUnsignedDecimalLiteral s =
     (if s = ''Infinity'' then PosInf
      else
        let ip = takeWhile is_digit s;
            r1 = dropWhile is_digit s;
            dot = (r1 \<noteq> [] \<and> hd r1 = CHR ''.'');
            fp = (if dot then takeWhile is_digit (tl r1) else []);
            r2 = (if dot then dropWhile is_digit (tl r1) else r1)
        in if ip = [] \<and> fp = [] then NaN
           else (case ExponentPart r2 of
                   None \<Rightarrow> NaN
                 | Some e \<Rightarrow>
                     Fin ((of_nat (digits_value 10 (map (\<lambda>c. the (decimal_digit c)) ip))
                           + of_nat (digits_value 10 (map (\<lambda>c. the (decimal_digit c)) fp))
                             / 10 ^ length fp)
                          * pow10 e)))"

definition StrWhiteSpaceChar :: "char \<Rightarrow> bool" where
  "StrWhiteSpaceChar c =
     (c = CHR 0x09 \<or> c = CHR 0x0A \<or> c = CHR 0x0B \<or> c = CHR 0x0C \<or> c = CHR 0x0D \<or> c = CHR 0x20)"

definition trim :: "string \<Rightarrow> string" where
  "trim s = rev (dropWhile StrWhiteSpaceChar (rev (dropWhile StrWhiteSpaceChar s)))"

definition NonDecimal :: "(char \<Rightarrow> nat option) \<Rightarrow> nat \<Rightarrow> string \<Rightarrow> number" where
  "NonDecimal digit b s = (case parse_digits digit b s of None \<Rightarrow> NaN | Some n \<Rightarrow> Fin (of_nat n))"

definition StringToNumber :: "string \<Rightarrow> number" where
  "StringToNumber str =
     (let s = trim str in
      if s = [] then num 0
      else if take 2 s = ''0x'' \<or> take 2 s = ''0X'' then NonDecimal hex_digit 16 (drop 2 s)
      else if take 2 s = ''0o'' \<or> take 2 s = ''0O'' then NonDecimal octal_digit 8 (drop 2 s)
      else if take 2 s = ''0b'' \<or> take 2 s = ''0B'' then NonDecimal binary_digit 2 (drop 2 s)
      else if hd s = CHR ''-'' then js_neg (StrUnsignedDecimalLiteral (tl s))
      else if hd s = CHR ''+'' then StrUnsignedDecimalLiteral (tl s)
      else StrUnsignedDecimalLiteral s)"

text \<open>\<^verbatim>\<open>getAttribute\<close> returns \<^verbatim>\<open>null\<close> for a missing attribute, and \<^verbatim>\<open>Number(null)\<close> is \<open>0\<close>.\<close>

definition Number :: "string option \<Rightarrow> number" where
  "Number v = (case v of None \<Rightarrow> num 0 | Some str \<Rightarrow> StringToNumber str)"

section \<open>The DOM the hook reads\<close>

text \<open>
  An \<^verbatim>\<open>HTMLElement\<close>: its identity (\<open>node\<close>; two elements are the same object when they
  are equal), its attributes, and the two layout properties the scroll effect reads, which
  the DOM gives as integers. The list container is an element too.
\<close>

record element =
  node :: nat
  attributes :: "(string \<times> string) list"
  offsetTop :: int
  offsetHeight :: int

definition getAttribute :: "element \<Rightarrow> string \<Rightarrow> string option" where
  "getAttribute el name = map_of (attributes el) name"

text \<open>
  \<^verbatim>\<open>target?.closest(`[name]`)\<close>: the event target is given by its inclusive ancestors,
  itself first (\<open>[]\<close> is a \<^verbatim>\<open>null\<close> target); the result is the first of them that has the
  attribute. The attribute name is taken to be a well-formed one, for which the selector
  is valid.
\<close>

definition closest :: "string \<Rightarrow> element list \<Rightarrow> element option" where
  "closest name target = find (\<lambda>el. getAttribute el name \<noteq> None) target"

text \<open>
  \<^verbatim>\<open>document.querySelector(`[name="index"]`)\<close> is the document's answer for an attribute
  name and an index: the document is that function.
\<close>

type_synonym document = "string \<Rightarrow> number \<Rightarrow> element option"

datatype ScrollBehavior = Auto | Instant | Smooth

record ScrollToOptions =
  top' :: int
  behavior :: ScrollBehavior

record KeyboardEvent =
  key :: string
  defaultPrevented :: bool

section \<open>The state of \<^verbatim>\<open>useKbdList\<close>\<close>

record state =
  hoverIndex :: number
  activeIndex :: number
  activeElement :: "element option"

text \<open>The three \<^verbatim>\<open>useState\<close> initial values.\<close>

definition initial :: state where
  "initial = \<lparr>hoverIndex = num (- 1), activeIndex = num 0, activeElement = None\<rparr>"

definition setActiveIndex :: "number \<Rightarrow> state \<Rightarrow> state" where
  "setActiveIndex index st = st\<lparr>activeIndex := index\<rparr>"

definition setHoverIndex :: "number \<Rightarrow> state \<Rightarrow> state" where
  "setHoverIndex index st = st\<lparr>hoverIndex := index\<rparr>"

definition setActiveElement :: "element \<Rightarrow> state \<Rightarrow> state" where
  "setActiveElement elem st = st\<lparr>activeElement := Some elem\<rparr>"

section \<open>The handlers\<close>

text \<open>
  \<^verbatim>\<open>handleKeypress\<close>: the event comes back with its default prevented, beside the new
  state. The \<^verbatim>\<open>switch\<close> on \<^verbatim>\<open>e.key\<close> leaves \<open>nextIndex\<close> at \<open>-1\<close> for any other key.
\<close>

definition handleKeypress :: "number \<Rightarrow> KeyboardEvent \<Rightarrow> state \<Rightarrow> KeyboardEvent \<times> state" where
  "handleKeypress listLength e st =
     (let e' = e\<lparr>defaultPrevented := True\<rparr> in
      if strict_eq listLength (num 0) then (e', st)
      else
        let isHovering = js_ge (hoverIndex st) (num 0);
            nextIndex =
              (if key e = ''ArrowUp'' then
                 (if \<not> isHovering
                  then js_rem (js_add (js_sub (activeIndex st) (num 1)) listLength) listLength
                  else js_rem (js_add (js_sub (hoverIndex st) (num 1)) listLength) listLength)
               else if key e = ''ArrowDown'' then
                 (if \<not> isHovering
                  then js_rem (js_add (activeIndex st) (num 1)) listLength
                  else js_rem (js_add (hoverIndex st) (num 1)) listLength)
               else if key e = ''PageUp'' \<or> key e = ''Home'' then num 0
               else if key e = ''PageDown'' \<or> key e = ''End'' then js_sub listLength (num 1)
               else num (- 1))
        in if strict_eq nextIndex (num (- 1)) then (e', st)
           else (e', setHoverIndex (num (- 1)) (setActiveIndex nextIndex st)))"

definition handleMove :: "string \<Rightarrow> element list \<Rightarrow> state \<Rightarrow> state" where
  "handleMove listItemIndexAttribute target st =
     (case closest listItemIndexAttribute target of
        None \<Rightarrow> st
      | Some element \<Rightarrow>
          let listItemIndex = Number (getAttribute element listItemIndexAttribute) in
          if isNaN listItemIndex \<or> strict_eq (hoverIndex st) listItemIndex then st
          else setActiveIndex listItemIndex (setHoverIndex listItemIndex st))"

definition handleLeave :: "state \<Rightarrow> state" where
  "handleLeave st = setHoverIndex (num (- 2)) st"

section \<open>The effects\<close>

definition getSelectedElement :: "document \<Rightarrow> string \<Rightarrow> number \<Rightarrow> element option" where
  "getSelectedElement document listItemIndexAttribute index =
     (if listItemIndexAttribute = [] then None
      else document listItemIndexAttribute index)"

text \<open>
  \<^verbatim>\<open>getSelectedElement\<close> is memoised on \<^verbatim>\<open>listItemIndexAttribute\<close>: as a dependency it changes
  when the attribute name does.

  An effect runs in the closure of the render it belongs to: it reads that render's values,
  and its state setters act on the pending state. \<open>lengthEffect\<close> is the effect on
  \<^verbatim>\<open>[listLength]\<close>; \<open>resolveEffect\<close>, given the rendered \<open>activeIndex\<close>, the one on
  \<^verbatim>\<open>[activeIndex, listLength, getSelectedElement]\<close>; \<open>scrollEffect\<close>, given the rendered state
  and \<^verbatim>\<open>ref.current\<close>, the one on \<^verbatim>\<open>[activeIndex, hoverIndex, activeElement]\<close>: it returns the
  argument of \<^verbatim>\<open>container.scroll\<close> when it calls it.
\<close>

definition lengthEffect :: "state \<Rightarrow> state" where
  "lengthEffect pending = setActiveIndex (num 0) pending"

definition resolveEffect :: "document \<Rightarrow> string \<Rightarrow> number \<Rightarrow> state \<Rightarrow> state" where
  "resolveEffect document listItemIndexAttribute index pending =
     (case getSelectedElement document listItemIndexAttribute index of
        None \<Rightarrow> pending
      | Some elem \<Rightarrow> setActiveElement elem pending)"

definition scrollEffect :: "element option \<Rightarrow> state \<Rightarrow> ScrollToOptions option" where
  "scrollEffect container st =
     (case container of
        None \<Rightarrow> None
      | Some c \<Rightarrow>
          if js_lt (activeIndex st) (num 0) \<or> strict_eq (activeIndex st) (hoverIndex st) then None
          else (case activeElement st of
                  None \<Rightarrow> None
                | Some el \<Rightarrow>
                    if strict_eq (hoverIndex st) (num (- 2)) then None
                    else Some \<lparr>top' = offsetTop el - offsetHeight c + offsetHeight el,
                               behavior = Smooth\<rparr>))"

section \<open>Renders and the effect cycle\<close>

text \<open>
  A render is the hook called with its two arguments and the current state.
  \<^verbatim>\<open>useEffect\<close> runs an effect after the first render (no previous render) and after a
  render in which one of its dependencies differs from the previous render's.
\<close>

type_synonym render = "number \<times> string \<times> state"

definition changed :: "'a option \<Rightarrow> 'a \<Rightarrow> bool" where
  "changed prev cur = (case prev of None \<Rightarrow> True | Some p \<Rightarrow> p \<noteq> cur)"

definition lengthDeps :: "render \<Rightarrow> number" where
  "lengthDeps r = fst r"

definition resolveDeps :: "render \<Rightarrow> number \<times> number \<times> string" where
  "resolveDeps r = (activeIndex (snd (snd r)), fst r, fst (snd r))"

definition scrollDeps :: "render \<Rightarrow> number \<times> number \<times> element option" where
  "scrollDeps r = (activeIndex (snd (snd r)), hoverIndex (snd (snd r)), activeElement (snd (snd r)))"

text \<open>
  One pass of the three effects, in the order of their declaration, after the render \<open>r\<close>:
  the pending state, and the scroll request if one was made.
\<close>

definition runEffects ::
  "element option \<Rightarrow> document \<Rightarrow> render option \<Rightarrow> render \<Rightarrow> state \<times> ScrollToOptions option" where
  "runEffects container document prev r =
     (let listLength = fst r;
          listItemIndexAttribute = fst (snd r);
          st = snd (snd r);
          s1 = (if changed (map_option lengthDeps prev) (lengthDeps r) then lengthEffect st else st);
          s2 = (if changed (map_option resolveDeps prev) (resolveDeps r)
                then resolveEffect document listItemIndexAttribute (activeIndex st) s1 else s1);
          scroll = (if changed (map_option scrollDeps prev) (scrollDeps r)
                    then scrollEffect container st else None)
      in (s2, scroll))"

text \<open>
  A state setter that changes the state schedules another render with the same arguments,
  whose effects follow; the cycle ends with a pass that leaves the state as rendered.
  It ends: the effect on the length can run in the first pass only, and the resolve effect,
  which writes \<open>activeElement\<close> alone, in the pass after a change of \<open>activeIndex\<close> at the
  latest (\<open>level\<close> counts the passes that can still write the state).
\<close>

definition level :: "render option \<Rightarrow> render \<Rightarrow> nat" where
  "level prev r =
     (if changed (map_option lengthDeps prev) (lengthDeps r) then 2
      else if changed (map_option resolveDeps prev) (resolveDeps r) then 1 else 0)"

function settle ::
  "element option \<Rightarrow> document \<Rightarrow> render option \<Rightarrow> render \<Rightarrow> state \<times> ScrollToOptions list" where
  "settle container document prev r =
     (let pass = runEffects container document prev r in
      if fst pass = snd (snd r) then (fst pass, case_option [] (\<lambda>x. [x]) (snd pass))
      else
        let rest = settle container document (Some r) (fst r, fst (snd r), fst pass)
        in (fst rest, case_option [] (\<lambda>x. [x]) (snd pass) @ snd rest))"
  by pat_completeness auto
termination
proof (relation "measure (\<lambda>(container, document, prev, r). level prev r)")
  show "wf (measure (\<lambda>(container, document, prev, r). level prev r))" by simp
next
  fix container :: "element option" and document :: document and prev :: "render option"
    and r :: render and pass
  assume p: "pass = runEffects container document prev r" and ne: "fst pass \<noteq> snd (snd r)"
  show "((container, document, Some r, fst r, fst (snd r), fst pass), container, document, prev, r)
          \<in> measure (\<lambda>(container, document, prev, r). level prev r)"
    using p ne
    by (auto simp: level_def changed_def lengthDeps_def resolveDeps_def runEffects_def Let_def
        resolveEffect_def lengthEffect_def setActiveIndex_def setActiveElement_def
        split: if_splits option.splits)
qed

declare settle.simps [simp del]

section \<open>Events\<close>

text \<open>
  The events the hook handles: a key delivered by \<^verbatim>\<open>useHotkeys\<close>, a mouse move over a
  target, and the mouse leaving. A step is the handler and the effect cycle that follows;
  it gives the settled state and the scroll requests made on the way. The state setters
  a handler calls take effect together, in one render.
\<close>

datatype event = KeyDown KeyboardEvent | MouseMove "element list" | MouseLeave

definition dispatch :: "number \<Rightarrow> string \<Rightarrow> event \<Rightarrow> state \<Rightarrow> state" where
  "dispatch listLength listItemIndexAttribute ev st =
     (case ev of
        KeyDown e \<Rightarrow> snd (handleKeypress listLength e st)
      | MouseMove target \<Rightarrow> handleMove listItemIndexAttribute target st
      | MouseLeave \<Rightarrow> handleLeave st)"

definition step ::
  "element option \<Rightarrow> document \<Rightarrow> number \<Rightarrow> string \<Rightarrow> event \<Rightarrow> state
     \<Rightarrow> state \<times> ScrollToOptions list" where
  "step container document listLength listItemIndexAttribute ev st =
     settle container document (Some (listLength, listItemIndexAttribute, st))
       (listLength, listItemIndexAttribute, dispatch listLength listItemIndexAttribute ev st)"

text \<open>The states after each event of a sequence, in order.\<close>

fun trace ::
  "element option \<Rightarrow> document \<Rightarrow> number \<Rightarrow> string \<Rightarrow> event list \<Rightarrow> state \<Rightarrow> state list" where
  "trace container document listLength listItemIndexAttribute [] st = []"
| "trace container document listLength listItemIndexAttribute (ev # evs) st =
     fst (step container document listLength listItemIndexAttribute ev st)
       # trace container document listLength listItemIndexAttribute evs
           (fst (step container document listLength listItemIndexAttribute ev st))"

section \<open>The specification's notions\<close>

text \<open>The invariant of the data model: \<open>0 \<le> i < length\<close>.\<close>

definition in_range :: "number \<Rightarrow> number \<Rightarrow> bool" where
  "in_range len i = (js_ge i (num 0) \<and> js_lt i len)"

text \<open>
  The base index of a keyboard transition, in the specification's words: \<open>hoverIndex\<close> if
  \<open>hoverIndex \<ge> 0\<close>, else \<open>activeIndex\<close>.
\<close>

definition base_index :: "state \<Rightarrow> number" where
  "base_index st = (if js_ge (hoverIndex st) (num 0) then hoverIndex st else activeIndex st)"

text \<open>
  The transition table of the specification, from a base index: no index for a key that
  is not one of the six.
\<close>

definition key_index :: "number \<Rightarrow> string \<Rightarrow> number \<Rightarrow> number option" where
  "key_index len k base =
     (if k = ''ArrowUp'' then Some (js_rem (js_add (js_sub base (num 1)) len) len)
      else if k = ''ArrowDown'' then Some (js_rem (js_add base (num 1)) len)
      else if k = ''PageUp'' \<or> k = ''Home'' then Some (num 0)
      else if k = ''PageDown'' \<or> k = ''End'' then Some (js_sub len (num 1))
      else None)"

text \<open>A number that is an integer.\<close>

definition is_integer :: "number \<Rightarrow> bool" where
  "is_integer x = (case x of Fin q \<Rightarrow> of_int \<lfloor>q\<rfloor> = q | _ \<Rightarrow> False)"

text \<open>
  A pointer event stays in range when the value \<open>handleMove\<close> reads from its target, if it
  reads one that is a number, is within \<open>0 \<le> v < n\<close>.
\<close>

definition pointer_in_range :: "int \<Rightarrow> string \<Rightarrow> event \<Rightarrow> bool" where
  "pointer_in_range n listItemIndexAttribute ev =
     (case ev of
        MouseMove target \<Rightarrow>
          (case closest listItemIndexAttribute target of
             None \<Rightarrow> True
           | Some el \<Rightarrow>
               isNaN (Number (getAttribute el listItemIndexAttribute))
               \<or> in_range (num n) (Number (getAttribute el listItemIndexAttribute)))
      | _ \<Rightarrow> True)"

section \<open>A list of five items\<close>

definition list_container :: element where
  "list_container = \<lparr>node = 0, attributes = [], offsetTop = 0, offsetHeight = 100\<rparr>"

definition item :: "nat \<Rightarrow> string \<Rightarrow> element" where
  "item k v = \<lparr>node = Suc k, attributes = [(''data-index'', v)], offsetTop = 40 * int k,
               offsetHeight = 40\<rparr>"

definition five_items :: document where
  "five_items name index =
     (if name \<noteq> ''data-index'' then None
      else if index = num 0 then Some (item 0 ''0'')
      else if index = num 1 then Some (item 1 ''1'')
      else if index = num 2 then Some (item 2 ''2'')
      else if index = num 3 then Some (item 3 ''3'')
      else if index = num 4 then Some (item 4 ''4'')
      else None)"

definition press :: "string \<Rightarrow> event" where
  "press k = KeyDown \<lparr>key = k, defaultPrevented = False\<rparr>"

text \<open>
  Mounting: the effect cycle after the first render. For the list of five items it
  settles in the state \<open>mounted\<close>.
\<close>

definition mount ::
  "element option \<Rightarrow> document \<Rightarrow> number \<Rightarrow> string \<Rightarrow> state \<times> ScrollToOptions list" where
  "mount container document listLength listItemIndexAttribute =
     settle container document None (listLength, listItemIndexAttribute, initial)"

definition mounted :: state where
  "mounted = \<lparr>hoverIndex = num (- 1), activeIndex = num 0, activeElement = Some (item 0 ''0'')\<rparr>"

section \<open>Arithmetic of the indices\<close>

lemma js_rem_num: "0 \<le> a \<Longrightarrow> 0 < n \<Longrightarrow> js_rem (num a) (num n) = num (a mod n)"
proof -
  assume a: "0 \<le> a" and n: "0 < n"
  have q: "(0::rat) \<le> of_int a / of_int n" using a n by simp
  have "trunc (of_int a / of_int n) = a div n"
    using q by (simp add: trunc_def floor_divide_of_int_eq)
  moreover have "(of_int a :: rat) - of_int n * of_int (a div n) = of_int (a mod n)"
    by (simp add: minus_mult_div_eq_mod flip: of_int_mult of_int_diff)
  ultimately show ?thesis using n by (simp add: num_def)
qed

lemma js_rem_range:
  assumes "0 \<le> q" and "0 < n"
  shows "\<exists>r. js_rem (Fin q) (num n) = Fin r \<and> 0 \<le> r \<and> r < of_int n"
proof -
  have n': "(0::rat) < of_int n" using assms by simp
  have q': "0 \<le> q / of_int n" using assms by simp
  have t: "trunc (q / of_int n) = \<lfloor>q / of_int n\<rfloor>" using q' by (simp add: trunc_def)
  have lo: "of_int \<lfloor>q / of_int n\<rfloor> * of_int n \<le> q" using floor_divide_lower [OF n'] .
  have hi: "q < (of_int \<lfloor>q / of_int n\<rfloor> + 1) * of_int n" using floor_divide_upper [OF n'] .
  have "js_rem (Fin q) (num n) = Fin (q - of_int n * of_int \<lfloor>q / of_int n\<rfloor>)"
    using assms t by (simp add: num_def)
  moreover have "0 \<le> q - of_int n * of_int \<lfloor>q / of_int n\<rfloor>" using lo by (simp add: mult.commute)
  moreover have "q - of_int n * of_int \<lfloor>q / of_int n\<rfloor> < of_int n" using hi by (simp add: algebra_simps)
  ultimately show ?thesis by blast
qed

lemma in_range_Fin: "in_range (num n) (Fin r) = (0 \<le> r \<and> r < of_int n)"
  by (auto simp: in_range_def js_ge_def num_def)

lemma in_range_cases: "in_range (num n) x \<Longrightarrow> \<exists>r. x = Fin r \<and> 0 \<le> r \<and> r < of_int n"
  by (cases x) (auto simp: in_range_def js_ge_def num_def)

lemma js_ge_zero_cases: "js_ge x (num 0) \<Longrightarrow> x = PosInf \<or> (\<exists>r. x = Fin r \<and> 0 \<le> r)"
  by (cases x) (auto simp: js_ge_def num_def)

lemma strict_eq_num: "strict_eq (num a) (num b) = (a = b)"
  by (simp add: strict_eq_def num_def)

lemma js_lt_num: "js_lt (num a) (num b) = (a < b)"
  by (simp add: num_def)

lemma js_ge_num: "js_ge (num a) (num b) = (b \<le> a)"
  by (auto simp: js_ge_def num_def)

section \<open>The handlers and the effect cycle\<close>

text \<open>The handler in terms of the transition table.\<close>

lemma handleKeypress_key_index:
  assumes "\<not> strict_eq listLength (num 0)"
  shows "snd (handleKeypress listLength e st) =
     (case key_index listLength (key e) (base_index st) of
        None \<Rightarrow> st
      | Some i \<Rightarrow> if strict_eq i (num (- 1)) then st
                  else st\<lparr>activeIndex := i, hoverIndex := num (- 1)\<rparr>)"
proof (cases "js_ge (hoverIndex st) (num 0)")
  case True
  then show ?thesis using assms
    by (simp add: handleKeypress_def key_index_def base_index_def Let_def setActiveIndex_def
        setHoverIndex_def strict_eq_num)
next
  case False
  then show ?thesis using assms
    by (simp add: handleKeypress_def key_index_def base_index_def Let_def setActiveIndex_def
        setHoverIndex_def strict_eq_num)
qed

lemma key_index_in_range:
  assumes n: "0 < n" and q: "0 \<le> q" and k: "key_index (num n) k (Fin q) = Some i"
  shows "in_range (num n) i"
proof -
  have up: "in_range (num n) (js_rem (js_add (js_sub (Fin q) (num 1)) (num n)) (num n))"
  proof -
    have "js_add (js_sub (Fin q) (num 1)) (num n) = Fin (q - 1 + of_int n)"
      by (simp add: js_sub_def num_def)
    moreover have "0 \<le> q - 1 + of_int n" using n q by simp
    then obtain r where "js_rem (Fin (q - 1 + of_int n)) (num n) = Fin r" "0 \<le> r" "r < of_int n"
      using js_rem_range [OF _ n] by blast
    ultimately show ?thesis by (simp add: in_range_Fin)
  qed
  have down: "in_range (num n) (js_rem (js_add (Fin q) (num 1)) (num n))"
  proof -
    have "js_add (Fin q) (num 1) = Fin (q + 1)" by (simp add: num_def)
    moreover have "0 \<le> q + 1" using q by simp
    then obtain r where "js_rem (Fin (q + 1)) (num n) = Fin r" "0 \<le> r" "r < of_int n"
      using js_rem_range [OF _ n] by blast
    ultimately show ?thesis by (simp add: in_range_Fin)
  qed
  have home: "in_range (num n) (num 0)" using n by (simp add: num_def in_range_Fin [unfolded num_def])
  have "js_sub (num n) (num 1) = Fin (of_int n - 1)" by (simp add: js_sub_def num_def)
  then have end': "in_range (num n) (js_sub (num n) (num 1))" using n by (simp add: in_range_Fin)
  show ?thesis using k up down home end' by (auto simp: key_index_def split: if_splits)
qed

lemma in_range_not_sentinel: "in_range len i \<Longrightarrow> \<not> strict_eq i (num (- 1))"
  by (cases i) (auto simp: in_range_def js_ge_def strict_eq_def num_def)

lemma runEffects_hoverIndex:
  "hoverIndex (fst (runEffects container document prev r)) = hoverIndex (snd (snd r))"
  by (simp add: runEffects_def Let_def lengthEffect_def resolveEffect_def setActiveIndex_def
      setActiveElement_def split: option.splits)

lemma runEffects_activeIndex:
  "activeIndex (fst (runEffects container document prev r)) =
     (if changed (map_option lengthDeps prev) (lengthDeps r) then num 0
      else activeIndex (snd (snd r)))"
  by (simp add: runEffects_def Let_def lengthEffect_def resolveEffect_def setActiveIndex_def
      setActiveElement_def split: option.splits)

lemma settle_hoverIndex:
  "hoverIndex (fst (settle container document prev r)) = hoverIndex (snd (snd r))"
proof (induction container document prev r rule: settle.induct)
  case (1 container document prev r)
  show ?case
  proof (cases "fst (runEffects container document prev r) = snd (snd r)")
    case True
    then show ?thesis by (subst settle.simps) (simp add: Let_def)
  next
    case False
    then show ?thesis
      using "1.IH" [OF refl False]
      by (subst settle.simps) (simp add: Let_def runEffects_hoverIndex)
  qed
qed

lemma settle_activeIndex:
  "activeIndex (fst (settle container document prev r)) =
     (if changed (map_option lengthDeps prev) (lengthDeps r) then num 0
      else activeIndex (snd (snd r)))"
proof (induction container document prev r rule: settle.induct)
  case (1 container document prev r)
  show ?case
  proof (cases "fst (runEffects container document prev r) = snd (snd r)")
    case True
    then show ?thesis
      using runEffects_activeIndex [of container document prev r]
      by (subst settle.simps) (simp add: Let_def)
  next
    case False
    then show ?thesis
      using "1.IH" [OF refl False] runEffects_activeIndex [of container document prev r]
      by (subst settle.simps) (simp add: Let_def changed_def lengthDeps_def)
  qed
qed

lemma step_indices:
  "activeIndex (fst (step container document len attr ev st)) = activeIndex (dispatch len attr ev st)
   \<and> hoverIndex (fst (step container document len attr ev st)) = hoverIndex (dispatch len attr ev st)"
  by (simp add: step_def settle_hoverIndex settle_activeIndex changed_def lengthDeps_def)

lemma base_index_nonneg:
  assumes "in_range (num n) (activeIndex st)" and "hoverIndex st \<noteq> PosInf"
  shows "\<exists>q. base_index st = Fin q \<and> 0 \<le> q"
proof (cases "js_ge (hoverIndex st) (num 0)")
  case True
  then show ?thesis using assms(2) js_ge_zero_cases [OF True] by (auto simp: base_index_def)
next
  case False
  then show ?thesis using in_range_cases [OF assms(1)] by (auto simp: base_index_def)
qed

lemma handleKeypress_inv:
  assumes n: "0 < n" and b: "base_index st = Fin q" and q: "0 \<le> q"
  shows "snd (handleKeypress (num n) e st) = st
         \<or> (in_range (num n) (activeIndex (snd (handleKeypress (num n) e st)))
            \<and> hoverIndex (snd (handleKeypress (num n) e st)) = num (- 1))"
proof (cases "key_index (num n) (key e) (base_index st)")
  case None
  then show ?thesis using n by (simp add: handleKeypress_key_index strict_eq_num)
next
  case (Some i)
  then have r: "in_range (num n) i" using key_index_in_range [OF n q] b by simp
  then have "\<not> strict_eq i (num (- 1))" by (rule in_range_not_sentinel)
  then show ?thesis using n Some r by (simp add: handleKeypress_key_index strict_eq_num)
qed

lemma handleMove_inv:
  assumes "pointer_in_range n attr (MouseMove target)"
    and "in_range (num n) (activeIndex st)" and "hoverIndex st \<noteq> PosInf"
  shows "in_range (num n) (activeIndex (handleMove attr target st))
         \<and> hoverIndex (handleMove attr target st) \<noteq> PosInf"
proof (cases "closest attr target")
  case None
  then show ?thesis using assms by (simp add: handleMove_def)
next
  case (Some el)
  show ?thesis
  proof (cases "isNaN (Number (getAttribute el attr))")
    case True
    then show ?thesis using assms Some by (simp add: handleMove_def)
  next
    case False
    then have r: "in_range (num n) (Number (getAttribute el attr))"
      using assms(1) Some by (simp add: pointer_in_range_def)
    then have "Number (getAttribute el attr) \<noteq> PosInf"
      using in_range_cases by fastforce
    then show ?thesis using assms Some r
      by (simp add: handleMove_def Let_def setActiveIndex_def setHoverIndex_def)
  qed
qed

lemma dispatch_inv:
  assumes n: "0 < n" and p: "pointer_in_range n attr ev"
    and a: "in_range (num n) (activeIndex st)" and h: "hoverIndex st \<noteq> PosInf"
  shows "in_range (num n) (activeIndex (dispatch (num n) attr ev st))
         \<and> hoverIndex (dispatch (num n) attr ev st) \<noteq> PosInf"
proof (cases ev)
  case (KeyDown e)
  obtain q where "base_index st = Fin q" "0 \<le> q" using base_index_nonneg [OF a h] by blast
  then show ?thesis using handleKeypress_inv [OF n, of st q e] a h KeyDown
    by (auto simp: dispatch_def num_def)
next
  case (MouseMove target)
  then show ?thesis using handleMove_inv [of n attr target st] p a h by (simp add: dispatch_def)
next
  case MouseLeave
  then show ?thesis using a by (simp add: dispatch_def handleLeave_def setHoverIndex_def num_def)
qed

lemma trace_inv:
  assumes n: "0 < n"
  shows "\<forall>ev\<in>set evs. pointer_in_range n attr ev \<Longrightarrow>
         in_range (num n) (activeIndex st) \<Longrightarrow> hoverIndex st \<noteq> PosInf \<Longrightarrow>
         \<forall>s\<in>set (trace container document (num n) attr evs st). in_range (num n) (activeIndex s)"
proof (induction evs arbitrary: st)
  case Nil
  then show ?case by simp
next
  case (Cons ev evs)
  have d: "in_range (num n) (activeIndex (dispatch (num n) attr ev st))
           \<and> hoverIndex (dispatch (num n) attr ev st) \<noteq> PosInf"
    using dispatch_inv [OF n _ Cons.prems(2,3)] Cons.prems(1) by simp
  then have s: "in_range (num n) (activeIndex (fst (step container document (num n) attr ev st)))"
    "hoverIndex (fst (step container document (num n) attr ev st)) \<noteq> PosInf"
    by (simp_all add: step_indices)
  show ?case using Cons.IH [OF _ s] Cons.prems(1) s(1) by simp
qed

lemma scrollEffect_Some:
  assumes "scrollEffect container st = Some req"
  shows "\<exists>c el. container = Some c \<and> activeElement st = Some el
           \<and> \<not> js_lt (activeIndex st) (num 0)
           \<and> \<not> strict_eq (activeIndex st) (hoverIndex st)
           \<and> \<not> strict_eq (hoverIndex st) (num (- 2))
           \<and> req = \<lparr>top' = offsetTop el - offsetHeight c + offsetHeight el, behavior = Smooth\<rparr>"
  using assms by (auto simp: scrollEffect_def split: option.splits if_splits)

lemma runEffects_scroll:
  "snd (runEffects container document prev r) =
     (if changed (map_option scrollDeps prev) (scrollDeps r)
      then scrollEffect container (snd (snd r)) else None)"
  by (simp add: runEffects_def Let_def)

lemma scrollEffect_left: "hoverIndex st = num (- 2) \<Longrightarrow> scrollEffect container st = None"
  by (simp add: scrollEffect_def strict_eq_num split: option.splits)

section \<open>Concrete values\<close>

lemma Number_examples:
  "Number (Some ''0'') = num 0" "Number (Some ''2'') = num 2" "Number (Some ''7'') = num 7"
  "Number (Some ''abc'') = NaN" "Number (Some ''1.5'') = Fin (3 / 2)" "Number (Some []) = num 0"
  by (simp_all add: Number_def StringToNumber_def trim_def StrWhiteSpaceChar_def
      StrUnsignedDecimalLiteral_def is_digit_def decimal_digit_def ExponentPart_def
      digits_value_def pow10_def num_def)

lemma closest_item: "closest ''data-index'' [item k v] = Some (item k v)"
  and getAttribute_item: "getAttribute (item k v) ''data-index'' = Some v"
  by (simp_all add: closest_def getAttribute_def item_def)

lemma mount_five_items:
  "mount (Some list_container) five_items (num 5) ''data-index''
     = (mounted, [\<lparr>top' = - 60, behavior = Smooth\<rparr>])"
  by code_simp

section \<open>Keyboard navigation\<close>

text \<open>
  Claim C3, as the code has it. With a length above zero, a key of the transition table
  moves from the base index, which is \<open>hoverIndex\<close> when \<open>hoverIndex \<ge> 0\<close> and \<open>activeIndex\<close>
  otherwise, \<open>hoverIndex = -2\<close> included. When the computed value is not \<open>-1\<close>, the handler
  leaves \<open>activeIndex\<close> at that value and \<open>hoverIndex\<close> at \<open>-1\<close>; when it is \<open>-1\<close>, the value
  \<open>nextIndex\<close> starts with, the handler returns and the state is as it was. For an integer
  length and a finite base index \<open>\<ge> 0\<close> the computed value is never \<open>-1\<close>.
\<close>

theorem keyboard_transition_from_base:
  assumes "js_lt (num 0) listLength"
    and "key_index listLength (key e) (base_index st) = Some i"
  shows "(\<not> strict_eq i (num (- 1)) \<longrightarrow>
            snd (handleKeypress listLength e st) = st\<lparr>activeIndex := i, hoverIndex := num (- 1)\<rparr>
            \<and> activeIndex (snd (handleKeypress listLength e st)) = i
            \<and> hoverIndex (snd (handleKeypress listLength e st)) = num (- 1))
         \<and> (strict_eq i (num (- 1)) \<longrightarrow> snd (handleKeypress listLength e st) = st)
         \<and> (listLength = num n \<and> base_index st = Fin q \<and> 0 \<le> q \<longrightarrow> \<not> strict_eq i (num (- 1)))
         \<and> base_index st = (if js_ge (hoverIndex st) (num 0) then hoverIndex st else activeIndex st)
         \<and> (hoverIndex st = num (- 2) \<longrightarrow> base_index st = activeIndex st)"
proof -
  have ne: "\<not> strict_eq listLength (num 0)"
    using assms(1) by (cases listLength) (auto simp: strict_eq_def num_def)
  have moved: "snd (handleKeypress listLength e st) = st\<lparr>activeIndex := i, hoverIndex := num (- 1)\<rparr>"
    if "\<not> strict_eq i (num (- 1))"
    using that assms(2) by (simp add: handleKeypress_key_index [OF ne])
  have stays: "snd (handleKeypress listLength e st) = st" if "strict_eq i (num (- 1))"
    using that assms(2) by (simp add: handleKeypress_key_index [OF ne])
  have never: "\<not> strict_eq i (num (- 1))"
    if len: "listLength = num n" and b: "base_index st = Fin q" and q: "0 \<le> q"
  proof -
    have n: "0 < n" using assms(1) len by (simp add: js_lt_num)
    have "key_index (num n) (key e) (Fin q) = Some i" using assms(2) len b by simp
    from key_index_in_range [OF n q this] show ?thesis by (rule in_range_not_sentinel)
  qed
  have left: "hoverIndex st = num (- 2) \<longrightarrow> base_index st = activeIndex st"
    by (simp add: base_index_def js_ge_num)
  have base: "base_index st = (if js_ge (hoverIndex st) (num 0) then hoverIndex st else activeIndex st)"
    by (simp add: base_index_def)
  show ?thesis using moved stays never left base by simp
qed

theorem keyboard_transition_from_base_witness:
  "snd (handleKeypress (num 5) \<lparr>key = ''ArrowUp'', defaultPrevented = False\<rparr>
         \<lparr>hoverIndex = num 2, activeIndex = num 0, activeElement = None\<rparr>)
     = \<lparr>hoverIndex = num (- 1), activeIndex = num 1, activeElement = None\<rparr>
   \<and> snd (handleKeypress (num 5) \<lparr>key = ''ArrowDown'', defaultPrevented = False\<rparr>
         \<lparr>hoverIndex = num (- 2), activeIndex = num 3, activeElement = None\<rparr>)
     = \<lparr>hoverIndex = num (- 1), activeIndex = num 4, activeElement = None\<rparr>"
proof -
  have r1: "js_rem (num 6) (num 5) = num 1" using js_rem_num [of 6 5] by simp
  have r4: "js_rem (num 4) (num 5) = num 4" using js_rem_num [of 4 5] by simp
  have a1: "js_add (js_sub (num 2) (num 1)) (num 5) = num 6" by (simp add: js_sub_def num_def)
  have a4: "js_add (num 3) (num 1) = num 4" by (simp add: num_def)
  have k1: "key_index (num 5) (key \<lparr>key = ''ArrowUp'', defaultPrevented = False\<rparr>)
              (base_index \<lparr>hoverIndex = num 2, activeIndex = num 0, activeElement = None\<rparr>)
            = Some (num 1)"
    by (simp add: key_index_def base_index_def js_ge_num a1 r1)
  have k2: "key_index (num 5) (key \<lparr>key = ''ArrowDown'', defaultPrevented = False\<rparr>)
              (base_index \<lparr>hoverIndex = num (- 2), activeIndex = num 3, activeElement = None\<rparr>)
            = Some (num 4)"
    by (simp add: key_index_def base_index_def js_ge_num a4 r4)
  have l: "js_lt (num 0) (num 5)" by (simp add: js_lt_num)
  have n1: "\<not> strict_eq (num 1) (num (- 1))" and n4: "\<not> strict_eq (num 4) (num (- 1))"
    by (simp_all add: strict_eq_num)
  show ?thesis
    using n1 n4 keyboard_transition_from_base [OF l k1] keyboard_transition_from_base [OF l k2]
    by simp
qed

text \<open>
  The claim as written fails. With five items, \<open>hoverIndex = -2\<close> and \<open>activeIndex = -2\<close>,
  \<^verbatim>\<open>ArrowDown\<close> computes \<open>(-2 + 1) % 5 = -1\<close> from the base index \<open>-2\<close>, and the handler returns:
  \<open>activeIndex\<close> is not the computed value and \<open>hoverIndex\<close> is not \<open>-1\<close>. Events alone reach
  that state: a move over an item whose attribute is \<^verbatim>\<open>-3\<close>, \<^verbatim>\<open>ArrowDown\<close>, the mouse leaving;
  the second \<^verbatim>\<open>ArrowDown\<close> then changes nothing.
\<close>

theorem keyboard_no_transition_at_minus_one:
  "js_lt (num 0) (num 5)
   \<and> key_index (num 5) ''ArrowDown''
        (base_index \<lparr>hoverIndex = num (- 2), activeIndex = num (- 2), activeElement = None\<rparr>)
      = Some (num (- 1))
   \<and> snd (handleKeypress (num 5) \<lparr>key = ''ArrowDown'', defaultPrevented = False\<rparr>
         \<lparr>hoverIndex = num (- 2), activeIndex = num (- 2), activeElement = None\<rparr>)
      = \<lparr>hoverIndex = num (- 2), activeIndex = num (- 2), activeElement = None\<rparr>
   \<and> map (\<lambda>s. (hoverIndex s, activeIndex s))
        (trace (Some list_container) five_items (num 5) ''data-index''
           [MouseMove [item 7 ''-3''], press ''ArrowDown'', MouseLeave, press ''ArrowDown''] mounted)
      = [(num (- 3), num (- 3)), (num (- 1), num (- 2)), (num (- 2), num (- 2)),
         (num (- 2), num (- 2))]"
  by code_simp

text \<open>
  Claim C4. For a length \<open>n > 0\<close> and a base index \<open>b\<close> with \<open>0 \<le> b < n\<close>, \<^verbatim>\<open>ArrowUp\<close> gives
  \<open>(b - 1 + n) mod n\<close> and \<^verbatim>\<open>ArrowDown\<close> gives \<open>(b + 1) mod n\<close>; so up from \<open>0\<close> is \<open>n - 1\<close> and
  down from \<open>n - 1\<close> is \<open>0\<close>.
\<close>

theorem arrow_keys_wrap_around:
  assumes "0 < n" and "0 \<le> b" and "b < n" and "base_index st = num b"
  shows "(key e = ''ArrowUp'' \<longrightarrow>
            activeIndex (snd (handleKeypress (num n) e st)) = num ((b - 1 + n) mod n))
         \<and> (key e = ''ArrowDown'' \<longrightarrow>
            activeIndex (snd (handleKeypress (num n) e st)) = num ((b + 1) mod n))
         \<and> (key e = ''ArrowUp'' \<and> b = 0 \<longrightarrow>
            activeIndex (snd (handleKeypress (num n) e st)) = num (n - 1))
         \<and> (key e = ''ArrowDown'' \<and> b = n - 1 \<longrightarrow>
            activeIndex (snd (handleKeypress (num n) e st)) = num 0)"
proof -
  have ne: "\<not> strict_eq (num n) (num 0)" using assms(1) by (simp add: strict_eq_num)
  have up0: "js_add (js_sub (num b) (num 1)) (num n) = num (b - 1 + n)"
    by (simp add: js_sub_def num_def)
  have up: "js_rem (js_add (js_sub (num b) (num 1)) (num n)) (num n) = num ((b - 1 + n) mod n)"
    using assms js_rem_num [of "b - 1 + n" n] by (simp add: up0)
  have down0: "js_add (num b) (num 1) = num (b + 1)" by (simp add: num_def)
  have down: "js_rem (js_add (num b) (num 1)) (num n) = num ((b + 1) mod n)"
    using assms js_rem_num [of "b + 1" n] by (simp add: down0)
  have upm: "(b - 1 + n) mod n \<noteq> - 1" and downm: "(b + 1) mod n \<noteq> - 1"
    using assms(1) pos_mod_sign [of n "b - 1 + n"] pos_mod_sign [of n "b + 1"] by linarith+
  have U: "key e = ''ArrowUp'' \<Longrightarrow>
      activeIndex (snd (handleKeypress (num n) e st)) = num ((b - 1 + n) mod n)"
    using upm by (simp add: handleKeypress_key_index [OF ne] key_index_def assms(4) up strict_eq_num)
  have D: "key e = ''ArrowDown'' \<Longrightarrow>
      activeIndex (snd (handleKeypress (num n) e st)) = num ((b + 1) mod n)"
    using downm
    by (simp add: handleKeypress_key_index [OF ne] key_index_def assms(4) down strict_eq_num)
  have U0: "(b - 1 + n) mod n = n - 1" if "b = 0"
  proof -
    have "b - 1 + n = n - 1" using that by simp
    moreover have "(n - 1) mod n = n - 1" using assms(1) by (intro mod_pos_pos_trivial) simp_all
    ultimately show ?thesis by (simp only:)
  qed
  have D0: "b = n - 1 \<Longrightarrow> (b + 1) mod n = 0" by simp
  show ?thesis using U D U0 D0 by auto
qed

theorem arrow_keys_wrap_around_witness:
  "activeIndex (snd (handleKeypress (num 5) \<lparr>key = ''ArrowUp'', defaultPrevented = False\<rparr> initial))
     = num 4
   \<and> activeIndex (snd (handleKeypress (num 5) \<lparr>key = ''ArrowDown'', defaultPrevented = False\<rparr>
        \<lparr>hoverIndex = num 4, activeIndex = num 2, activeElement = None\<rparr>)) = num 0"
proof -
  have b0: "base_index initial = num 0"
    by (simp add: base_index_def initial_def js_ge_num)
  have b4: "base_index \<lparr>hoverIndex = num 4, activeIndex = num 2, activeElement = None\<rparr> = num 4"
    by (simp add: base_index_def js_ge_num)
  show ?thesis
    using arrow_keys_wrap_around [of 5 0 initial "\<lparr>key = ''ArrowUp'', defaultPrevented = False\<rparr>", OF _ _ _ b0]
      arrow_keys_wrap_around [of 5 4 "\<lparr>hoverIndex = num 4, activeIndex = num 2, activeElement = None\<rparr>"
        "\<lparr>key = ''ArrowDown'', defaultPrevented = False\<rparr>", OF _ _ _ b4]
    by simp
qed

text \<open>
  Claim C6. With a length of zero a key event changes nothing: whatever the key and the
  state before, the handler returns the state as it was (after preventing the event's
  default), and the step makes no scroll request.
\<close>

theorem empty_list_ignores_keys:
  "snd (handleKeypress (num 0) e st) = st
   \<and> defaultPrevented (fst (handleKeypress (num 0) e st))
   \<and> step container document (num 0) attr (KeyDown e) st = (st, [])"
proof -
  have h: "handleKeypress (num 0) e st = (e\<lparr>defaultPrevented := True\<rparr>, st)"
    by (simp add: handleKeypress_def strict_eq_num)
  have "runEffects container document (Some (num 0, attr, st)) (num 0, attr, st) = (st, None)"
    by (simp add: runEffects_def changed_def lengthDeps_def resolveDeps_def scrollDeps_def)
  then have "settle container document (Some (num 0, attr, st)) (num 0, attr, st) = (st, [])"
    by (subst settle.simps) simp
  then show ?thesis using h by (simp add: step_def dispatch_def)
qed

theorem empty_list_ignores_keys_witness:
  "snd (handleKeypress (num 0) \<lparr>key = ''ArrowDown'', defaultPrevented = False\<rparr> initial) = initial
   \<and> snd (handleKeypress (num 0) \<lparr>key = ''End'', defaultPrevented = False\<rparr> initial) = initial"
  using empty_list_ignores_keys [of "\<lparr>key = ''ArrowDown'', defaultPrevented = False\<rparr>" initial]
    empty_list_ignores_keys [of "\<lparr>key = ''End'', defaultPrevented = False\<rparr>" initial]
  by simp

section \<open>The pointer\<close>

text \<open>
  Claim C5, as the code has it. \<open>handleMove\<close> leaves the state as it is when no inclusive
  ancestor of the target has the index attribute, when \<^verbatim>\<open>Number\<close> of the attribute value
  is \<open>NaN\<close>, or when that number equals the current \<open>hoverIndex\<close>; otherwise it sets
  \<open>hoverIndex\<close> and \<open>activeIndex\<close> to that number.
\<close>

theorem handleMove_cases:
  "(closest attr target = None \<longrightarrow> handleMove attr target st = st)
   \<and> (closest attr target = Some el \<and> isNaN (Number (getAttribute el attr)) \<longrightarrow>
        handleMove attr target st = st)
   \<and> (closest attr target = Some el \<and> strict_eq (hoverIndex st) (Number (getAttribute el attr)) \<longrightarrow>
        handleMove attr target st = st)
   \<and> (closest attr target = Some el \<and> \<not> isNaN (Number (getAttribute el attr))
        \<and> \<not> strict_eq (hoverIndex st) (Number (getAttribute el attr)) \<longrightarrow>
        handleMove attr target st
          = st\<lparr>hoverIndex := Number (getAttribute el attr),
                activeIndex := Number (getAttribute el attr)\<rparr>)"
  by (simp add: handleMove_def Let_def setActiveIndex_def setHoverIndex_def)

theorem handleMove_cases_witness:
  "handleMove ''data-index'' [list_container] initial = initial
   \<and> handleMove ''data-index'' [item 2 ''abc''] initial = initial
   \<and> handleMove ''data-index'' [item 2 ''2'']
        \<lparr>hoverIndex = num 2, activeIndex = num 3, activeElement = None\<rparr>
      = \<lparr>hoverIndex = num 2, activeIndex = num 3, activeElement = None\<rparr>
   \<and> handleMove ''data-index'' [item 2 ''2''] initial
      = \<lparr>hoverIndex = num 2, activeIndex = num 2, activeElement = None\<rparr>"
proof -
  have c0: "closest ''data-index'' [list_container] = None"
    by (simp add: closest_def getAttribute_def list_container_def)
  show ?thesis
    using handleMove_cases [of "''data-index''" "[list_container]" initial "item 2 ''2''"]
      handleMove_cases [of "''data-index''" "[item 2 ''abc'']" initial "item 2 ''abc''"]
      handleMove_cases [of "''data-index''" "[item 2 ''2'']"
        "\<lparr>hoverIndex = num 2, activeIndex = num 3, activeElement = None\<rparr>" "item 2 ''2''"]
      handleMove_cases [of "''data-index''" "[item 2 ''2'']" initial "item 2 ''2''"]
    by (simp add: c0 closest_item getAttribute_item Number_examples isNaN_def strict_eq_def
        initial_def num_def)
qed

text \<open>
  The claim as written fails: the attribute value \<^verbatim>\<open>1.5\<close> is no integer, and the move over
  its item is not ignored.
\<close>

theorem handleMove_accepts_fraction:
  "\<not> is_integer (Number (getAttribute (item 1 ''1.5'') ''data-index''))
   \<and> handleMove ''data-index'' [item 1 ''1.5''] initial
      = \<lparr>hoverIndex = Fin (3 / 2), activeIndex = Fin (3 / 2), activeElement = None\<rparr>"
proof -
  have "\<lfloor>3 / 2 :: rat\<rfloor> = 1" by linarith
  then have "\<not> is_integer (Fin (3 / 2))" by (simp add: is_integer_def)
  then show ?thesis
    by (simp add: handleMove_def closest_item getAttribute_item Number_examples isNaN_def
        strict_eq_def initial_def num_def setActiveIndex_def setHoverIndex_def Let_def)
qed

text \<open>
  Claim C10. \<open>handleLeave\<close> sets \<open>hoverIndex\<close> to \<open>-2\<close> whatever it was, and leaves
  \<open>activeIndex\<close> and \<open>activeElement\<close> as they were.
\<close>

theorem handleLeave_frame:
  "handleLeave st = st\<lparr>hoverIndex := num (- 2)\<rparr>
   \<and> hoverIndex (handleLeave st) = num (- 2)
   \<and> activeIndex (handleLeave st) = activeIndex st
   \<and> activeElement (handleLeave st) = activeElement st"
  by (simp add: handleLeave_def setHoverIndex_def)

theorem handleLeave_frame_witness:
  "handleLeave \<lparr>hoverIndex = num (- 1), activeIndex = num 3, activeElement = Some (item 3 ''3'')\<rparr>
     = \<lparr>hoverIndex = num (- 2), activeIndex = num 3, activeElement = Some (item 3 ''3'')\<rparr>
   \<and> handleLeave \<lparr>hoverIndex = num (- 2), activeIndex = num 3, activeElement = None\<rparr>
     = \<lparr>hoverIndex = num (- 2), activeIndex = num 3, activeElement = None\<rparr>"
  using handleLeave_frame [of "\<lparr>hoverIndex = num (- 1), activeIndex = num 3, activeElement = Some (item 3 ''3'')\<rparr>"]
    handleLeave_frame [of "\<lparr>hoverIndex = num (- 2), activeIndex = num 3, activeElement = None\<rparr>"]
  by simp

section \<open>The effects after a render\<close>

text \<open>
  Claim C7. When the length differs from the previous render's, whatever the two values
  and whatever \<open>activeIndex\<close> was, the pass of the effects leaves \<open>activeIndex\<close> at \<open>0\<close>, and so
  does the whole effect cycle.
\<close>

theorem length_change_resets_activeIndex:
  assumes "len0 \<noteq> len"
  shows "activeIndex (fst (runEffects container document (Some (len0, attr0, st0)) (len, attr, st)))
           = num 0
         \<and> activeIndex (fst (settle container document (Some (len0, attr0, st0)) (len, attr, st)))
           = num 0"
  using assms
  by (simp add: runEffects_activeIndex settle_activeIndex changed_def lengthDeps_def)

theorem length_change_resets_activeIndex_witness:
  "activeIndex (fst (settle (Some list_container) five_items
      (Some (num 5, ''data-index'',
             \<lparr>hoverIndex = num (- 1), activeIndex = num 4, activeElement = Some (item 4 ''4'')\<rparr>))
      (num 3, ''data-index'',
       \<lparr>hoverIndex = num (- 1), activeIndex = num 4, activeElement = Some (item 4 ''4'')\<rparr>)))
   = num 0"
proof -
  have "num 5 \<noteq> num 3" by (simp add: num_def)
  from length_change_resets_activeIndex [OF this] show ?thesis by blast
qed

text \<open>
  Claim C8. When the locator finds no element for the current \<open>activeIndex\<close>,
  \<open>activeElement\<close> keeps its value; it changes only to an element the locator found, and
  an element once resolved is never cleared.
\<close>

theorem resolve_keeps_last_element:
  "(getSelectedElement document attr (activeIndex st) = None \<longrightarrow>
      activeElement (fst (runEffects container document prev (listLength, attr, st)))
        = activeElement st
      \<and> resolveEffect document attr (activeIndex st) st = st)
   \<and> (activeElement (fst (runEffects container document prev (listLength, attr, st)))
        \<noteq> activeElement st \<longrightarrow>
      getSelectedElement document attr (activeIndex st)
        = activeElement (fst (runEffects container document prev (listLength, attr, st))))
   \<and> (activeElement st \<noteq> None \<longrightarrow>
      activeElement (fst (runEffects container document prev (listLength, attr, st))) \<noteq> None)"
  by (auto simp: runEffects_def Let_def resolveEffect_def lengthEffect_def setActiveIndex_def
      setActiveElement_def split: option.splits)

theorem resolve_keeps_last_element_witness:
  "activeElement (fst (runEffects (Some list_container) five_items
      (Some (num 5, ''data-index'', mounted))
      (num 5, ''data-index'', mounted\<lparr>activeIndex := num 7\<rparr>)))
   = Some (item 0 ''0'')"
proof -
  have "getSelectedElement five_items ''data-index'' (activeIndex (mounted\<lparr>activeIndex := num 7\<rparr>))
          = None"
    by (simp add: getSelectedElement_def five_items_def num_def)
  then show ?thesis
    using resolve_keeps_last_element [of five_items "''data-index''"
        "mounted\<lparr>activeIndex := num 7\<rparr>" "Some list_container" "Some (num 5, ''data-index'', mounted)"
        "num 5"]
    by (simp add: mounted_def)
qed

text \<open>
  Claim C1, as the code has it. The scroll effect makes a request only when the container
  exists, \<open>activeIndex\<close> is not below zero (so it is \<open>\<ge> 0\<close> unless it is \<open>NaN\<close>), \<open>activeIndex\<close>
  differs from \<open>hoverIndex\<close>, \<open>activeElement\<close> is present, \<open>hoverIndex\<close> is not \<open>-2\<close>, and one of
  \<open>activeIndex\<close>, \<open>hoverIndex\<close> and \<open>activeElement\<close> differs from the previous render's (or
  there is no previous render). In a state reached by \<open>handleLeave\<close> no request is made,
  and the step of the mouse leaving makes none.
\<close>

theorem scroll_request_conditions:
  "(snd (runEffects container document prev (listLength, attr, st)) = Some req \<longrightarrow>
      container \<noteq> None
      \<and> \<not> js_lt (activeIndex st) (num 0)
      \<and> (activeIndex st \<noteq> NaN \<longrightarrow> js_ge (activeIndex st) (num 0))
      \<and> \<not> strict_eq (activeIndex st) (hoverIndex st)
      \<and> activeElement st \<noteq> None
      \<and> hoverIndex st \<noteq> num (- 2)
      \<and> changed (map_option scrollDeps prev) (scrollDeps (listLength, attr, st)))
   \<and> snd (runEffects container document prev (listLength, attr, handleLeave st)) = None
   \<and> snd (step container document listLength attr MouseLeave st) = []"
proof -
  have a: "container \<noteq> None
      \<and> \<not> js_lt (activeIndex st) (num 0)
      \<and> (activeIndex st \<noteq> NaN \<longrightarrow> js_ge (activeIndex st) (num 0))
      \<and> \<not> strict_eq (activeIndex st) (hoverIndex st)
      \<and> activeElement st \<noteq> None
      \<and> hoverIndex st \<noteq> num (- 2)
      \<and> changed (map_option scrollDeps prev) (scrollDeps (listLength, attr, st))"
    if "snd (runEffects container document prev (listLength, attr, st)) = Some req"
  proof -
    have c: "changed (map_option scrollDeps prev) (scrollDeps (listLength, attr, st))"
      and s: "scrollEffect container st = Some req"
      using that by (simp_all add: runEffects_scroll split: if_splits)
    from scrollEffect_Some [OF s] obtain c' el where f:
      "container = Some c'" "activeElement st = Some el" "\<not> js_lt (activeIndex st) (num 0)"
      "\<not> strict_eq (activeIndex st) (hoverIndex st)" "\<not> strict_eq (hoverIndex st) (num (- 2))"
      by blast
    have "hoverIndex st \<noteq> num (- 2)" using f(5) by (auto simp: strict_eq_num)
    moreover have "activeIndex st \<noteq> NaN \<longrightarrow> js_ge (activeIndex st) (num 0)"
      using f(3) by (simp add: js_ge_def num_def)
    ultimately show ?thesis using c f by simp
  qed
  have l: "scrollEffect container (handleLeave st) = None"
    by (rule scrollEffect_left) (simp add: handleLeave_def setHoverIndex_def)
  have b: "snd (runEffects container document prev (listLength, attr, handleLeave st)) = None"
    by (simp add: runEffects_scroll l)
  have f: "fst (runEffects container document (Some (listLength, attr, st))
                 (listLength, attr, handleLeave st)) = handleLeave st"
    by (simp add: runEffects_def Let_def changed_def lengthDeps_def resolveDeps_def
        handleLeave_def setHoverIndex_def)
  have s: "snd (runEffects container document (Some (listLength, attr, st))
                 (listLength, attr, handleLeave st)) = None"
    by (simp add: runEffects_scroll l)
  have "settle container document (Some (listLength, attr, st)) (listLength, attr, handleLeave st)
          = (handleLeave st, [])"
    by (subst settle.simps) (simp add: f s Let_def)
  then have c: "snd (step container document listLength attr MouseLeave st) = []"
    by (simp add: step_def dispatch_def)
  show ?thesis using a b c by blast
qed

theorem scroll_request_conditions_witness:
  "snd (runEffects (Some list_container) five_items None (num 5, ''data-index'', mounted))
     = Some \<lparr>top' = - 60, behavior = Smooth\<rparr>
   \<and> js_ge (activeIndex mounted) (num 0)
   \<and> \<not> strict_eq (activeIndex mounted) (hoverIndex mounted)
   \<and> activeElement mounted \<noteq> None
   \<and> snd (step (Some list_container) five_items (num 5) ''data-index'' MouseLeave mounted) = []"
proof -
  have e: "snd (runEffects (Some list_container) five_items None (num 5, ''data-index'', mounted))
     = Some \<lparr>top' = - 60, behavior = Smooth\<rparr>"
    by code_simp
  have n: "activeIndex mounted \<noteq> NaN" by (simp add: mounted_def num_def)
  show ?thesis
    using e n scroll_request_conditions [of "Some list_container" five_items None "num 5"
        "''data-index''" mounted "\<lparr>top' = - 60, behavior = Smooth\<rparr>"]
    by simp
qed

text \<open>
  The claim as written fails. After a move over item \<open>0\<close>, \<^verbatim>\<open>Home\<close> leaves \<open>activeIndex\<close> at
  \<open>0\<close> and changes \<open>hoverIndex\<close> alone, and a scroll request is made. And after a move over
  an item whose attribute is \<^verbatim>\<open>Infinity\<close>, \<^verbatim>\<open>ArrowDown\<close> makes \<open>activeIndex\<close> \<open>NaN\<close>, which is
  not \<open>\<ge> 0\<close>, and a scroll request is made.
\<close>

theorem scroll_without_activeIndex_change:
  "fst (step (Some list_container) five_items (num 5) ''data-index'' (MouseMove [item 0 ''0''])
         mounted)
     = \<lparr>hoverIndex = num 0, activeIndex = num 0, activeElement = Some (item 0 ''0'')\<rparr>
   \<and> step (Some list_container) five_items (num 5) ''data-index'' (press ''Home'')
        \<lparr>hoverIndex = num 0, activeIndex = num 0, activeElement = Some (item 0 ''0'')\<rparr>
     = (\<lparr>hoverIndex = num (- 1), activeIndex = num 0, activeElement = Some (item 0 ''0'')\<rparr>,
        [\<lparr>top' = - 60, behavior = Smooth\<rparr>])
   \<and> step (Some list_container) five_items (num 5) ''data-index''
        (MouseMove [item 9 ''Infinity'']) mounted
     = (\<lparr>hoverIndex = PosInf, activeIndex = PosInf, activeElement = Some (item 0 ''0'')\<rparr>, [])
   \<and> step (Some list_container) five_items (num 5) ''data-index'' (press ''ArrowDown'')
        \<lparr>hoverIndex = PosInf, activeIndex = PosInf, activeElement = Some (item 0 ''0'')\<rparr>
     = (\<lparr>hoverIndex = num (- 1), activeIndex = NaN, activeElement = Some (item 0 ''0'')\<rparr>,
        [\<lparr>top' = - 60, behavior = Smooth\<rparr>])
   \<and> \<not> js_ge NaN (num 0)"
  by code_simp

text \<open>
  Claim C9. A scroll request asks for the offset \<open>offsetTop - containerHeight + offsetHeight\<close>
  of the active element and the container, with smooth behaviour.
\<close>

theorem scroll_request_offset:
  assumes "snd (runEffects container document prev (listLength, attr, st)) = Some req"
  shows "\<exists>c el. container = Some c \<and> activeElement st = Some el
           \<and> top' req = offsetTop el - offsetHeight c + offsetHeight el
           \<and> behavior req = Smooth"
proof -
  have "scrollEffect container st = Some req"
    using assms by (simp add: runEffects_scroll split: if_splits)
  from scrollEffect_Some [OF this] show ?thesis by auto
qed

theorem scroll_request_offset_witness:
  "\<exists>c el. Some list_container = Some c \<and> activeElement mounted = Some el
      \<and> top' \<lparr>top' = - 60, behavior = Smooth\<rparr> = offsetTop el - offsetHeight c + offsetHeight el
      \<and> behavior \<lparr>top' = - 60, behavior = Smooth\<rparr> = Smooth"
proof -
  have e: "snd (runEffects (Some list_container) five_items None (num 5, ''data-index'', mounted))
     = Some \<lparr>top' = - 60, behavior = Smooth\<rparr>"
    by code_simp
  show ?thesis by (rule scroll_request_offset [OF e])
qed

section \<open>The range of the active index\<close>

text \<open>
  Claim C2, as the code has it. For a length \<open>n > 0\<close>: from a state with
  \<open>0 \<le> activeIndex < n\<close> whose \<open>hoverIndex\<close> is not \<open>+Infinity\<close>, a sequence of key and pointer
  events in which every value \<open>handleMove\<close> accepts lies in \<open>0 \<le> v < n\<close> keeps
  \<open>0 \<le> activeIndex < n\<close> after each event. A key of the table pressed on a finite base
  index \<open>\<ge> 0\<close> (a \<open>hoverIndex\<close> of \<open>n\<close> or more included), and \<^verbatim>\<open>Home\<close>, \<^verbatim>\<open>PageUp\<close>, \<^verbatim>\<open>End\<close> and
  \<^verbatim>\<open>PageDown\<close> on any state, leave \<open>0 \<le> activeIndex < n\<close>.
\<close>

theorem activeIndex_in_range_preserved:
  assumes "0 < n"
  shows "(in_range (num n) (activeIndex st) \<and> hoverIndex st \<noteq> PosInf
          \<and> (\<forall>ev\<in>set evs. pointer_in_range n attr ev) \<longrightarrow>
          (\<forall>s\<in>set (trace container document (num n) attr evs st). in_range (num n) (activeIndex s)))
         \<and> (base_index st' = Fin q \<and> 0 \<le> q
            \<and> key_index (num n) (key e) (base_index st') \<noteq> None \<longrightarrow>
            in_range (num n) (activeIndex (snd (handleKeypress (num n) e st'))))
         \<and> (key e = ''Home'' \<or> key e = ''PageUp'' \<or> key e = ''End'' \<or> key e = ''PageDown'' \<longrightarrow>
            in_range (num n) (activeIndex (snd (handleKeypress (num n) e st'))))"
proof -
  have ne: "\<not> strict_eq (num n) (num 0)" using assms by (simp add: strict_eq_num)
  have k: "in_range (num n) (activeIndex (snd (handleKeypress (num n) e st')))"
    if "key_index (num n) (key e) (base_index st') = Some i" and "in_range (num n) i" for i
    using that in_range_not_sentinel [OF that(2)] by (simp add: handleKeypress_key_index [OF ne])
  have b: "in_range (num n) (activeIndex (snd (handleKeypress (num n) e st')))"
    if bq: "base_index st' = Fin q" and q0: "0 \<le> q"
      and kn: "key_index (num n) (key e) (base_index st') \<noteq> None"
  proof -
    obtain i where i: "key_index (num n) (key e) (base_index st') = Some i" using kn by blast
    then have "in_range (num n) i" using key_index_in_range [OF assms q0] bq by simp
    then show ?thesis using k i by blast
  qed
  have h: "in_range (num n) (activeIndex (snd (handleKeypress (num n) e st')))"
    if "key e = ''Home'' \<or> key e = ''PageUp'' \<or> key e = ''End'' \<or> key e = ''PageDown''"
  proof -
    have "js_sub (num n) (num 1) = num (n - 1)" by (simp add: js_sub_def num_def)
    then have "\<exists>i. key_index (num n) (key e) (base_index st') = Some i \<and> in_range (num n) i"
      using that assms by (auto simp: key_index_def in_range_def js_ge_num js_lt_num)
    then show ?thesis using k by blast
  qed
  show ?thesis using trace_inv [OF assms] b h by blast
qed

theorem activeIndex_in_range_preserved_witness:
  "list_all (\<lambda>s. in_range (num 5) (activeIndex s))
     (trace (Some list_container) five_items (num 5) ''data-index''
        [press ''ArrowUp'', MouseMove [item 2 ''2''], press ''ArrowDown'', MouseLeave, press ''End'']
        mounted)
   \<and> in_range (num 5) (activeIndex (snd (handleKeypress (num 5)
        \<lparr>key = ''ArrowDown'', defaultPrevented = False\<rparr>
        \<lparr>hoverIndex = num 7, activeIndex = num 7, activeElement = None\<rparr>)))"
proof -
  have a: "in_range (num 5) (activeIndex mounted) \<and> hoverIndex mounted \<noteq> PosInf"
    by (simp add: mounted_def in_range_def js_ge_num js_lt_num) (simp add: num_def)
  have p: "\<forall>ev\<in>set [press ''ArrowUp'', MouseMove [item 2 ''2''], press ''ArrowDown'', MouseLeave,
                     press ''End'']. pointer_in_range 5 ''data-index'' ev"
    by (simp add: pointer_in_range_def press_def closest_item getAttribute_item Number_examples
        in_range_def js_ge_num js_lt_num)
  have b: "base_index \<lparr>hoverIndex = num 7, activeIndex = num 7, activeElement = None\<rparr> = Fin 7"
    by (simp add: base_index_def js_ge_num) (simp add: num_def)
  have k: "key_index (num 5) (key \<lparr>key = ''ArrowDown'', defaultPrevented = False\<rparr>)
             (base_index \<lparr>hoverIndex = num 7, activeIndex = num 7, activeElement = None\<rparr>) \<noteq> None"
    by (simp add: key_index_def)
  show ?thesis
    using a p b k
      activeIndex_in_range_preserved [of 5 mounted
        "[press ''ArrowUp'', MouseMove [item 2 ''2''], press ''ArrowDown'', MouseLeave, press ''End'']"
        "''data-index''" "Some list_container" five_items
        "\<lparr>hoverIndex = num 7, activeIndex = num 7, activeElement = None\<rparr>" 7
        "\<lparr>key = ''ArrowDown'', defaultPrevented = False\<rparr>"]
    by (simp add: list_all_iff)
qed

text \<open>
  The claim as written fails: \<open>handleMove\<close> checks no range. With five items, a move over an
  item whose attribute is \<^verbatim>\<open>7\<close> leaves \<open>activeIndex\<close> at \<open>7\<close>; and a move over one whose
  attribute is \<^verbatim>\<open>-3\<close> leaves it at \<open>-3\<close>, from where \<^verbatim>\<open>ArrowDown\<close> gives \<open>-2\<close>.
\<close>

theorem handleMove_stores_out_of_range:
  "map activeIndex (trace (Some list_container) five_items (num 5) ''data-index''
      [MouseMove [item 7 ''7'']] mounted) = [num 7]
   \<and> \<not> in_range (num 5) (num 7)
   \<and> map activeIndex (trace (Some list_container) five_items (num 5) ''data-index''
      [MouseMove [item 7 ''-3''], press ''ArrowDown''] mounted) = [num (- 3), num (- 2)]
   \<and> \<not> in_range (num 5) (num (- 3))
   \<and> \<not> in_range (num 5) (num (- 2))"
proof -
  have "map activeIndex (trace (Some list_container) five_items (num 5) ''data-index''
      [MouseMove [item 7 ''7'']] mounted) = [num 7]"
    by code_simp
  moreover have "map activeIndex (trace (Some list_container) five_items (num 5) ''data-index''
      [MouseMove [item 7 ''-3''], press ''ArrowDown''] mounted) = [num (- 3), num (- 2)]"
    by code_simp
  ultimately show ?thesis by (simp add: in_range_def js_ge_num js_lt_num)
qed

end
